theory Spec2Isabelle
  imports Main "HOL-Library.Multiset" "HOL-Library.Char_ord" "HOL-Library.List_Lexorder"
begin

section \<open>Data model (buildpack.go)\<close>

text \<open>
  The Go structs become records. Two Go structs may not share a field name here, so the
  fields of \<open>BuildpackDependencyLicense\<close> carry the prefix \<open>license_\<close>. Go slices are
  lists; a nil slice and an empty slice are both the empty list, and Go strings are lists
  of bytes.
\<close>

record BuildpackDependencyLicense =
  license_Type :: string
  license_URI :: string

record BuildpackDependency =
  ID :: string
  Name :: string
  Version :: string
  URI :: string
  SHA256 :: string
  Stacks :: "string list"
  Licenses :: "BuildpackDependencyLicense list"

record DependencyResolver =
  Dependencies :: "BuildpackDependency list"
  StackID :: string

text \<open>The zero value \<open>BuildpackDependency{}\<close>.\<close>

definition zero_BuildpackDependency :: BuildpackDependency where
  "zero_BuildpackDependency =
     \<lparr>ID = [], Name = [], Version = [], URI = [], SHA256 = [], Stacks = [], Licenses = []\<rparr>"

section \<open>The semantic-version library\<close>

text \<open>
  \<open>Resolve\<close> calls four operations of the external package
  \<open>github.com/Masterminds/semver/v3\<close>: \<open>NewVersion\<close>, \<open>NewConstraint\<close>,
  \<open>Constraints.Check\<close> and \<open>Version.GreaterThan\<close>. The package is not part of the
  repository, so the four operations are a parameter of the model: a record of functions
  over a type \<open>'v\<close> of parsed versions and a type \<open>'c\<close> of parsed constraints. A parser
  that returns an error is \<open>None\<close>.
\<close>

record ('v, 'c) semver =
  NewVersion :: "string \<Rightarrow> 'v option"
  NewConstraint :: "string \<Rightarrow> 'c option"
  Check :: "'c \<Rightarrow> 'v \<Rightarrow> bool"
  GreaterThan :: "'v \<Rightarrow> 'v \<Rightarrow> bool"

section \<open>sort.Slice\<close>

text \<open>
  \<open>sort.Slice(xs, less)\<close> of the Go standard library, as an insertion sort: an element
  moves in front of the first element that is not \<open>less\<close> than it. Go does not promise
  the order of elements that compare equal; no theorem below depends on it.
\<close>

fun insert_Slice :: "('a \<Rightarrow> 'a \<Rightarrow> bool) \<Rightarrow> 'a \<Rightarrow> 'a list \<Rightarrow> 'a list" where
  "insert_Slice lt x [] = [x]"
| "insert_Slice lt x (y # ys) =
     (if lt y x then y # insert_Slice lt x ys else x # y # ys)"

definition sort_Slice :: "('a \<Rightarrow> 'a \<Rightarrow> bool) \<Rightarrow> 'a list \<Rightarrow> 'a list" where
  "sort_Slice lt xs = foldr (insert_Slice lt) xs []"

section \<open>DependencyResolver (buildpack.go)\<close>

text \<open>
  The errors of \<open>Resolve\<close>, each with the values its message is made of rather than the
  formatted text: the constraint expression for \<open>InvalidConstraint\<close>, the version string
  for \<open>UnableToParseVersion\<close>, and id, constraint, stack id and catalog for
  \<open>NoValidDependenciesError\<close> (\<open>DependenciesFormatter\<close> is defined elsewhere in the
  repository). \<open>IndexOutOfRange\<close> is the run-time panic of \<open>candidates[0]\<close> on an empty
  slice.
\<close>

datatype resolve_error =
    InvalidConstraint string
  | UnableToParseVersion string
  | NoValidDependenciesError string string string "BuildpackDependency list"
  | IndexOutOfRange

fun contains :: "string list \<Rightarrow> string \<Rightarrow> bool" where
  "contains [] v = False"
| "contains (c # cs) v = (if c = v then True else contains cs v)"

text \<open>
  The loop over \<open>d.Dependencies\<close>: every entry's version is parsed, in catalog order,
  before the entry is tested; the first parse failure returns. The last argument is the
  slice \<open>candidates\<close> built so far.
\<close>

fun Resolve_loop ::
  "('v, 'c) semver \<Rightarrow> 'c \<Rightarrow> string \<Rightarrow> string \<Rightarrow> BuildpackDependency list
     \<Rightarrow> BuildpackDependency list \<Rightarrow> resolve_error + BuildpackDependency list" where
  "Resolve_loop sv vc i stack [] candidates = Inr candidates"
| "Resolve_loop sv vc i stack (c # cs) candidates =
     (case NewVersion sv (Version c) of
        None \<Rightarrow> Inl (UnableToParseVersion (Version c))
      | Some v \<Rightarrow>
          Resolve_loop sv vc i stack cs
            (if ID c = i \<and> Check sv vc v \<and> contains (Stacks c) stack
             then candidates @ [c] else candidates))"

text \<open>
  The comparison given to \<open>sort.Slice\<close>: both versions are parsed again, the errors
  dropped. Every candidate's version has parsed in the loop, so the branch for a failed
  parse (a nil dereference in Go) is not reached.
\<close>

definition Resolve_less ::
  "('v, 'c) semver \<Rightarrow> BuildpackDependency \<Rightarrow> BuildpackDependency \<Rightarrow> bool" where
  "Resolve_less sv x y =
     (case (NewVersion sv (Version x), NewVersion sv (Version y)) of
        (Some a, Some b) \<Rightarrow> GreaterThan sv a b
      | _ \<Rightarrow> False)"

definition Resolve ::
  "('v, 'c) semver \<Rightarrow> DependencyResolver \<Rightarrow> string \<Rightarrow> string
     \<Rightarrow> resolve_error + BuildpackDependency" where
  "Resolve sv d i version0 =
     (let version = (if version0 = [] then ''*'' else version0) in
      case NewConstraint sv version of
        None \<Rightarrow> Inl (InvalidConstraint version)
      | Some vc \<Rightarrow>
          (case Resolve_loop sv vc i (StackID d) (Dependencies d) [] of
             Inl e \<Rightarrow> Inl e
           | Inr candidates \<Rightarrow>
               if length candidates = 0
               then Inl (NoValidDependenciesError i version (StackID d) (Dependencies d))
               else (case sort_Slice (Resolve_less sv) candidates of
                       [] \<Rightarrow> Inl IndexOutOfRange
                     | x # _ \<Rightarrow> Inr x)))"

definition Any :: "('v, 'c) semver \<Rightarrow> DependencyResolver \<Rightarrow> string \<Rightarrow> string \<Rightarrow> bool" where
  "Any sv d i version = (case Resolve sv d i version of Inl err \<Rightarrow> False | Inr x \<Rightarrow> True)"

text \<open>
  The candidate set as the specification words it: the entry's ID is the requested one, its
  version parses and satisfies the constraint, and the stack is among its stacks.
\<close>

definition candidate ::
  "('v, 'c) semver \<Rightarrow> 'c \<Rightarrow> string \<Rightarrow> string \<Rightarrow> BuildpackDependency \<Rightarrow> bool" where
  "candidate sv vc i stack c \<longleftrightarrow>
     ID c = i
     \<and> (case NewVersion sv (Version c) of None \<Rightarrow> False | Some v \<Rightarrow> Check sv vc v)
     \<and> stack \<in> set (Stacks c)"

subsection \<open>A small instance of the library, for the examples\<close>

text \<open>
  Versions are triples (major, minor, patch) ordered lexicographically; the two parsers are
  finite tables, so that every string outside the table is malformed. A constraint is a
  list of bounds that must all hold.
\<close>

datatype example_op = AtLeast | Below

fun example_GreaterThan :: "nat \<times> nat \<times> nat \<Rightarrow> nat \<times> nat \<times> nat \<Rightarrow> bool" where
  "example_GreaterThan (a1, a2, a3) (b1, b2, b3) \<longleftrightarrow>
     b1 < a1 \<or> (a1 = b1 \<and> (b2 < a2 \<or> (a2 = b2 \<and> b3 < a3)))"

fun example_Check1 :: "nat \<times> nat \<times> nat \<Rightarrow> example_op \<times> (nat \<times> nat \<times> nat) \<Rightarrow> bool" where
  "example_Check1 v (AtLeast, w) = (\<not> example_GreaterThan w v)"
| "example_Check1 v (Below, w) = example_GreaterThan w v"

definition example_semver ::
  "(nat \<times> nat \<times> nat, (example_op \<times> (nat \<times> nat \<times> nat)) list) semver" where
  "example_semver =
     \<lparr>NewVersion = map_of
        [(''9.0.0'', (9, 0, 0)), (''10.0.0'', (10, 0, 0)), (''11.0.2'', (11, 0, 2))],
      NewConstraint = map_of
        [(''*'', []), (''>=11 <12'', [(AtLeast, (11, 0, 0)), (Below, (12, 0, 0))]),
         (''>=12'', [(AtLeast, (12, 0, 0))])],
      Check = (\<lambda>c v. list_all (example_Check1 v) c),
      GreaterThan = example_GreaterThan\<rparr>"

definition example_dependency :: "string \<Rightarrow> string \<Rightarrow> string list \<Rightarrow> BuildpackDependency" where
  "example_dependency i v stacks =
     \<lparr>ID = i, Name = i, Version = v, URI = ''https://example.com/'' @ i @ ''-'' @ v @ ''.tgz'',
      SHA256 = [], Stacks = stacks, Licenses = []\<rparr>"

definition example_resolver :: DependencyResolver where
  "example_resolver =
     \<lparr>Dependencies =
        [example_dependency ''jdk'' ''9.0.0'' [''bionic''],
         example_dependency ''jdk'' ''10.0.0'' [''tiny'', ''bionic''],
         example_dependency ''jdk'' ''11.0.2'' [''tiny''],
         example_dependency ''maven'' ''11.0.2'' [''bionic'']],
      StackID = ''bionic''\<rparr>"

definition example_malformed_resolver :: DependencyResolver where
  "example_malformed_resolver =
     \<lparr>Dependencies =
        [example_dependency ''jdk'' ''11.0.2'' [''bionic''],
         example_dependency ''maven'' ''three'' [''tiny'']],
      StackID = ''bionic''\<rparr>"


section \<open>Strings and paths (strings, path/filepath)\<close>

text \<open>
  The functions of the Go standard library that the repository calls on paths, for a
  system whose separator is \<open>/\<close>. \<open>strings_Split s sep\<close> is \<open>strings.Split\<close> for a
  separator of one character: \<open>n\<close> separators give \<open>n + 1\<close> parts, and the empty string
  gives one empty part.
\<close>

fun strings_Split :: "string \<Rightarrow> char \<Rightarrow> string list" where
  "strings_Split [] sep = [[]]"
| "strings_Split (c # cs) sep =
     (if c = sep then [] # strings_Split cs sep
      else (case strings_Split cs sep of
              [] \<Rightarrow> [[c]]
            | w # ws \<Rightarrow> (c # w) # ws))"

fun strings_Join :: "string list \<Rightarrow> string \<Rightarrow> string" where
  "strings_Join [] sep = []"
| "strings_Join [x] sep = x"
| "strings_Join (x # y # ys) sep = x @ sep @ strings_Join (y # ys) sep"

text \<open>
  \<open>filepath.Clean\<close>: empty and \<open>.\<close> elements are dropped, \<open>..\<close> removes the element
  before it (at the root it is dropped, at the start of a relative path it is kept), and
  an empty result is \<open>.\<close>. The second argument of \<open>Clean_step\<close> is the output so far,
  last element first.
\<close>

definition Clean_step :: "bool \<Rightarrow> string list \<Rightarrow> string \<Rightarrow> string list" where
  "Clean_step rooted out e =
     (if e = [] \<or> e = ''.'' then out
      else if e = ''..'' then
        (case out of
           [] \<Rightarrow> if rooted then [] else [''..'']
         | t # ts \<Rightarrow> if t = ''..'' then ''..'' # out else ts)
      else e # out)"

definition filepath_Clean :: "string \<Rightarrow> string" where
  "filepath_Clean p =
     (case p of
        [] \<Rightarrow> ''.''
      | c # cs \<Rightarrow>
          (let rooted = (c = CHR ''/'');
               out = foldl (Clean_step rooted) [] (strings_Split p (CHR ''/''));
               s = (if rooted then ''/'' else []) @ strings_Join (rev out) ''/''
           in if s = [] then ''.'' else s))"

text \<open>\<open>filepath.Join\<close>: leading empty elements are ignored, the rest is joined and cleaned.\<close>

definition filepath_Join :: "string list \<Rightarrow> string" where
  "filepath_Join elem =
     (case dropWhile (\<lambda>e. e = []) elem of
        [] \<Rightarrow> []
      | es \<Rightarrow> filepath_Clean (strings_Join es ''/''))"

text \<open>\<open>filepath.Base\<close>: the last element, after trailing separators are removed.\<close>

definition filepath_Base :: "string \<Rightarrow> string" where
  "filepath_Base path =
     (if path = [] then ''.''
      else (let stripped = rev (dropWhile (\<lambda>c. c = CHR ''/'') (rev path));
                last_element = rev (takeWhile (\<lambda>c. c \<noteq> CHR ''/'') (rev stripped))
            in if last_element = [] then ''/'' else last_element))"

text \<open>\<open>filepath.Dir\<close>: all but the last element, cleaned.\<close>

definition filepath_Dir :: "string \<Rightarrow> string" where
  "filepath_Dir path = filepath_Clean (rev (dropWhile (\<lambda>c. c \<noteq> CHR ''/'') (rev path)))"

section \<open>The file system (os)\<close>

text \<open>
  The file system is a map from cleaned paths to nodes: a directory, a regular file with
  its permission bits and content, or a symbolic link with its target. The content type
  \<open>'b\<close> is left open. Only the calls the repository makes are modelled, each with the
  errors the map itself can cause; permissions, quotas and missing parent directories
  are outside the model, and a symbolic link is created but never followed (a read or
  write through one is an error).
\<close>

datatype 'b node = Dir | File nat 'b | Link string

type_synonym 'b filesystem = "string \<Rightarrow> 'b node option"

datatype os_error = NotExist | NotADirectory | IsADirectory | Exists | IsALink

text \<open>\<open>os.MkdirAll(path, perm)\<close>: nothing to do when the directory exists.\<close>

definition os_MkdirAll :: "'b filesystem \<Rightarrow> string \<Rightarrow> os_error + 'b filesystem" where
  "os_MkdirAll fs path =
     (case fs path of
        None \<Rightarrow> Inr (fs(path \<mapsto> Dir))
      | Some Dir \<Rightarrow> Inr fs
      | Some (File m b) \<Rightarrow> Inl NotADirectory
      | Some (Link t) \<Rightarrow> Inl IsALink)"

text \<open>
  \<open>os.OpenFile(path, O_CREATE|O_TRUNC|O_WRONLY, perm)\<close> followed by \<open>io.Copy\<close> of the
  whole content: a new file takes \<open>perm\<close>, an existing one keeps its mode and loses its
  old content.
\<close>

definition os_WriteFile :: "'b filesystem \<Rightarrow> string \<Rightarrow> nat \<Rightarrow> 'b \<Rightarrow> os_error + 'b filesystem" where
  "os_WriteFile fs path perm content =
     (case fs path of
        None \<Rightarrow> Inr (fs(path \<mapsto> File perm content))
      | Some Dir \<Rightarrow> Inl IsADirectory
      | Some (File m b) \<Rightarrow> Inr (fs(path \<mapsto> File m content))
      | Some (Link t) \<Rightarrow> Inl IsALink)"


text \<open>
  \<open>os.Open(path)\<close> and reading the file to its end. The result stands for the open
  \<open>*os.File\<close>: its name and the content it reads.
\<close>

definition os_Open :: "'b filesystem \<Rightarrow> string \<Rightarrow> os_error + string \<times> 'b" where
  "os_Open fs path =
     (case fs path of
        None \<Rightarrow> Inl NotExist
      | Some Dir \<Rightarrow> Inl IsADirectory
      | Some (File m b) \<Rightarrow> Inr (path, b)
      | Some (Link t) \<Rightarrow> Inl IsALink)"

section \<open>DependencyCache (dependency_cache.go)\<close>

text \<open>
  What \<open>Artifact\<close> takes from outside the repository is a parameter of the model:
  \<^item> \<open>sha256_hex\<close>, the hexadecimal SHA-256 digest of a content;
  \<^item> \<open>toml_Decode b actual\<close>, the effect of \<open>toml.DecodeFile(file, &actual)\<close> on a file of
    content \<open>b\<close>: the value of \<open>actual\<close> after the call, or \<open>None\<close> for a decoding error.
    The decoder writes into the struct it is given, so its result may depend on the value
    that struct held before;
  \<^item> \<open>toml_Encode\<close>, the text \<open>toml.NewEncoder(out).Encode(dependency)\<close> writes;
  \<^item> \<open>http_Do\<close>, the answer of the origin to a GET request for a URI with a User-Agent
    (the \<open>file\<close> scheme reads the local file system, hence the first argument).
\<close>

datatype 'b response =
    NewRequestError
  | DoError
  | Response int 'b bool

text \<open>
  In \<open>Response status body complete\<close> the flag tells whether the body was read to its end;
  otherwise \<open>body\<close> is what arrived before the read error.
\<close>

record 'b system =
  sha256_hex :: "'b \<Rightarrow> string"
  toml_Decode :: "'b \<Rightarrow> BuildpackDependency \<Rightarrow> BuildpackDependency option"
  toml_Encode :: "BuildpackDependency \<Rightarrow> 'b"
  http_Do :: "'b filesystem \<Rightarrow> string \<Rightarrow> string option \<Rightarrow> 'b response"

text \<open>
  The state a call runs in and leaves behind: the file system, and the URIs of the
  requests sent to an origin so far, oldest first.
\<close>

record 'b world =
  world_fs :: "'b filesystem"
  world_requests :: "string list"

text \<open>The \<open>Logger\<close> field is left out: log lines are not part of the model.\<close>

record DependencyCache =
  CachePath :: string
  DownloadPath :: string
  UserAgent :: string

datatype download_error =
    UnableToCreateRequest
  | UnableToRequest
  | CouldNotDownload int
  | DownloadMakeDirectory string os_error
  | DownloadOpenFile string os_error
  | UnableToCopy

datatype cache_error =
    UnableToDownload string download_error
  | UnableToDecodeMetadata string
  | UnableToVerify string os_error
  | Sha256Mismatch string string string
  | MetadataMakeDirectory string os_error
  | MetadataOpenFile string os_error
  | OpenError os_error

definition download ::
  "'b system \<Rightarrow> DependencyCache \<Rightarrow> string \<Rightarrow> string \<Rightarrow> 'b world
     \<Rightarrow> download_error option \<times> 'b world" where
  "download sys d uri destination w =
     (case http_Do sys (world_fs w) uri (if UserAgent d = [] then None else Some (UserAgent d)) of
        NewRequestError \<Rightarrow> (Some UnableToCreateRequest, w)
      | DoError \<Rightarrow> (Some UnableToRequest, w\<lparr>world_requests := world_requests w @ [uri]\<rparr>)
      | Response status body complete \<Rightarrow>
          (let w1 = w\<lparr>world_requests := world_requests w @ [uri]\<rparr> in
           if status < 200 \<or> status > 299 then (Some (CouldNotDownload status), w1)
           else
             (case os_MkdirAll (world_fs w1) (filepath_Dir destination) of
                Inl e \<Rightarrow> (Some (DownloadMakeDirectory (filepath_Dir destination) e), w1)
              | Inr fs1 \<Rightarrow>
                  (case os_WriteFile fs1 destination 420 body of
                     Inl e \<Rightarrow> (Some (DownloadOpenFile destination e), w1\<lparr>world_fs := fs1\<rparr>)
                   | Inr fs2 \<Rightarrow>
                       (if complete then None else Some UnableToCopy, w1\<lparr>world_fs := fs2\<rparr>)))))"

definition verify :: "'b system \<Rightarrow> 'b filesystem \<Rightarrow> string \<Rightarrow> string \<Rightarrow> cache_error option" where
  "verify sys fs path expected =
     (case os_Open fs path of
        Inl e \<Rightarrow> Some (UnableToVerify path e)
      | Inr (name, content) \<Rightarrow>
          (let actual = sha256_hex sys content in
           if expected \<noteq> actual then Some (Sha256Mismatch path actual expected) else None))"

text \<open>
  The statement
  \<open>if _, err := toml.DecodeFile(file, &actual); err != nil && !os.IsNotExist(err)\<close>:
  a missing file is no error and leaves \<open>actual\<close> as it was; any other failure returns.
\<close>

definition DecodeFile ::
  "'b system \<Rightarrow> 'b filesystem \<Rightarrow> string \<Rightarrow> BuildpackDependency
     \<Rightarrow> cache_error + BuildpackDependency" where
  "DecodeFile sys fs file actual =
     (case fs file of
        None \<Rightarrow> Inr actual
      | Some (File m b) \<Rightarrow>
          (case toml_Decode sys b actual of
             None \<Rightarrow> Inl (UnableToDecodeMetadata file)
           | Some a \<Rightarrow> Inr a)
      | Some n \<Rightarrow> Inl (UnableToDecodeMetadata file))"

definition open_result :: "'b filesystem \<Rightarrow> string \<Rightarrow> cache_error + string \<times> 'b" where
  "open_result fs path = (case os_Open fs path of Inl e \<Rightarrow> Inl (OpenError e) | Inr f \<Rightarrow> Inr f)"

text \<open>
  \<open>Artifact\<close>. The variable \<open>actual\<close> starts as the zero value and is handed to both
  calls of \<open>DecodeFile\<close>, the second receiving what the first left in it.
  \<open>reflect.DeepEqual\<close> on two dependencies is equality of the records (which do not
  have the difference between a nil and an empty slice that \<open>DeepEqual\<close> sees).
\<close>

definition Artifact ::
  "'b system \<Rightarrow> DependencyCache \<Rightarrow> BuildpackDependency \<Rightarrow> 'b world
     \<Rightarrow> (cache_error + string \<times> 'b) \<times> 'b world" where
  "Artifact sys d dependency w =
     (if SHA256 dependency = [] then
        (let artifact = filepath_Join [DownloadPath d, filepath_Base (URI dependency)] in
         (case download sys d (URI dependency) artifact w of
            (Some e, w1) \<Rightarrow> (Inl (UnableToDownload (URI dependency) e), w1)
          | (None, w1) \<Rightarrow> (open_result (world_fs w1) artifact, w1)))
      else
        (let file = filepath_Join [CachePath d, SHA256 dependency @ ''.toml''] in
         (case DecodeFile sys (world_fs w) file zero_BuildpackDependency of
            Inl e \<Rightarrow> (Inl e, w)
          | Inr actual \<Rightarrow>
             (if dependency = actual then
                (open_result (world_fs w)
                   (filepath_Join [CachePath d, SHA256 dependency, filepath_Base (URI dependency)]), w)
              else
               (let file = filepath_Join [DownloadPath d, SHA256 dependency @ ''.toml''] in
                (case DecodeFile sys (world_fs w) file actual of
                   Inl e \<Rightarrow> (Inl e, w)
                 | Inr actual \<Rightarrow>
                    (if dependency = actual then
                       (open_result (world_fs w)
                          (filepath_Join [DownloadPath d, SHA256 dependency,
                                          filepath_Base (URI dependency)]), w)
                     else
                      (let artifact = filepath_Join [DownloadPath d, SHA256 dependency,
                                                     filepath_Base (URI dependency)] in
                       (case download sys d (URI dependency) artifact w of
                          (Some e, w1) \<Rightarrow> (Inl (UnableToDownload (URI dependency) e), w1)
                        | (None, w1) \<Rightarrow>
                           (case verify sys (world_fs w1) artifact (SHA256 dependency) of
                              Some e \<Rightarrow> (Inl e, w1)
                            | None \<Rightarrow>
                               (let file = filepath_Join [DownloadPath d,
                                                          SHA256 dependency @ ''.toml''] in
                                (case os_MkdirAll (world_fs w1) (filepath_Dir file) of
                                   Inl e \<Rightarrow> (Inl (MetadataMakeDirectory (filepath_Dir file) e), w1)
                                 | Inr fs1 \<Rightarrow>
                                    (case os_WriteFile fs1 file 493 (toml_Encode sys dependency) of
                                       Inl e \<Rightarrow>
                                         (Inl (MetadataOpenFile file e), w1\<lparr>world_fs := fs1\<rparr>)
                                     | Inr fs2 \<Rightarrow>
                                         (open_result fs2 artifact,
                                          w1\<lparr>world_fs := fs2\<rparr>))))))))))))))"

subsection \<open>An instance of the system, for the examples\<close>

text \<open>
  A file holds either plain bytes or a TOML document, given by the keys it contains. The
  decoder sets the fields whose keys are present and leaves the others as they were in
  the struct it was given, as \<open>toml.DecodeFile\<close> does; plain bytes do not decode. The
  encoder writes the five strings always and a list only when it is not empty (it skips
  nil slices). The digest is a table of the three contents used below, and the origin
  answers every request with status 200 and a fixed body.
\<close>

record toml_document =
  toml_id :: "string option"
  toml_name :: "string option"
  toml_version :: "string option"
  toml_uri :: "string option"
  toml_sha256 :: "string option"
  toml_stacks :: "string list option"
  toml_licenses :: "BuildpackDependencyLicense list option"

datatype example_content = Blob string | Toml toml_document

fun example_Decode :: "example_content \<Rightarrow> BuildpackDependency \<Rightarrow> BuildpackDependency option" where
  "example_Decode (Blob s) actual = None"
| "example_Decode (Toml doc) actual =
     Some \<lparr>ID = (case toml_id doc of None \<Rightarrow> ID actual | Some v \<Rightarrow> v),
           Name = (case toml_name doc of None \<Rightarrow> Name actual | Some v \<Rightarrow> v),
           Version = (case toml_version doc of None \<Rightarrow> Version actual | Some v \<Rightarrow> v),
           URI = (case toml_uri doc of None \<Rightarrow> URI actual | Some v \<Rightarrow> v),
           SHA256 = (case toml_sha256 doc of None \<Rightarrow> SHA256 actual | Some v \<Rightarrow> v),
           Stacks = (case toml_stacks doc of None \<Rightarrow> Stacks actual | Some v \<Rightarrow> v),
           Licenses = (case toml_licenses doc of None \<Rightarrow> Licenses actual | Some v \<Rightarrow> v)\<rparr>"

definition example_Encode :: "BuildpackDependency \<Rightarrow> example_content" where
  "example_Encode dep =
     Toml \<lparr>toml_id = Some (ID dep), toml_name = Some (Name dep),
           toml_version = Some (Version dep), toml_uri = Some (URI dep),
           toml_sha256 = Some (SHA256 dep),
           toml_stacks = (if Stacks dep = [] then None else Some (Stacks dep)),
           toml_licenses = (if Licenses dep = [] then None else Some (Licenses dep))\<rparr>"

fun example_sha256_hex :: "example_content \<Rightarrow> string" where
  "example_sha256_hex (Blob s) =
     (if s = ''test-fixture''
      then ''576dd8416de5619ea001d9662291d62444d1292a38e96956bc4651c01f14bca1''
      else if s = ''invalid-fixture''
      then ''a98d2040e95e923d862b8aadd9da9f29395a3c9eedc90386cd3a9560cd3fbb6b''
      else if s = ''alternate-fixture''
      then ''87e01708328c85af454981e94080726aedd64d31b4d4f87b7a0ae22db4f7c411''
      else [])"
| "example_sha256_hex (Toml doc) = []"

definition example_system :: "string \<Rightarrow> example_content system" where
  "example_system body =
     \<lparr>sha256_hex = example_sha256_hex, toml_Decode = example_Decode,
      toml_Encode = example_Encode,
      http_Do = (\<lambda>fs uri agent. Response 200 (Blob body) True)\<rparr>"

definition example_cache :: DependencyCache where
  "example_cache = \<lparr>CachePath = ''/cache'', DownloadPath = ''/downloads'',
                     UserAgent = ''test-user-agent''\<rparr>"

definition test_dependency :: BuildpackDependency where
  "test_dependency =
     \<lparr>ID = ''test-id'', Name = ''test-name'', Version = ''1.1.1'',
      URI = ''https://example.com/test-path'',
      SHA256 = ''576dd8416de5619ea001d9662291d62444d1292a38e96956bc4651c01f14bca1'',
      Stacks = [''test-stack''],
      Licenses = [\<lparr>license_Type = ''test-type'', license_URI = ''test-uri''\<rparr>]\<rparr>"



text \<open>
  The permanent tier holds the metadata of a dependency with the same digest and another
  name; the download tier holds the metadata and the artifact that an earlier call left
  for the dependency without its licenses.
\<close>

definition stale_world :: "example_content world" where
  "stale_world =
     \<lparr>world_fs = map_of
        [(''/cache/576dd8416de5619ea001d9662291d62444d1292a38e96956bc4651c01f14bca1.toml'',
          File 420 (example_Encode (test_dependency\<lparr>Name := ''old-name''\<rparr>))),
         (''/downloads/576dd8416de5619ea001d9662291d62444d1292a38e96956bc4651c01f14bca1.toml'',
          File 493 (example_Encode (test_dependency\<lparr>Licenses := []\<rparr>))),
         (''/downloads/576dd8416de5619ea001d9662291d62444d1292a38e96956bc4651c01f14bca1/test-path'',
          File 420 (Blob ''test-fixture''))],
      world_requests = []\<rparr>"




section \<open>Crush (crush.go)\<close>










section \<open>NewFileListing (sherpa/file_listing.go)\<close>

text \<open>
  \<open>FileEntry\<close>; its field \<open>SHA256\<close> is \<open>listing_SHA256\<close> here, and the empty string is the
  absent digest (the field is \<open>omitempty\<close>).
\<close>

record FileEntry =
  Path :: string
  Mode :: string
  ModificationTime :: string
  listing_SHA256 :: string

text \<open>
  The directory tree that \<open>filepath.Walk\<close> finds. Of an \<open>os.FileInfo\<close> the listing
  reads \<open>Mode().String()\<close>, \<open>ModTime().Format(time.RFC3339)\<close> and \<open>IsDir()\<close>; the first two
  are the record \<open>file_info\<close>, the third is the constructor of the node. A node that is
  not a directory has a content, or cannot be opened, or cannot be read to its end. A
  directory has its entries by name, in the order \<open>Walk\<close> reads them (sorted by name),
  or cannot be read; \<open>LstatFails\<close> is a name whose \<open>os.Lstat\<close> fails.
\<close>

record file_info =
  info_Mode :: string
  info_ModTime :: string

datatype 'b readable = Content 'b | OpenFails | ReadFails

datatype 'b tree =
    FileNode file_info "'b readable"
  | DirNode file_info "(string \<times> 'b tree) list"
  | DirUnreadable file_info
  | LstatFails

text \<open>
  One call of the walk function with a nil error: the path, the info, and whether
  \<open>info.IsDir()\<close> holds; for a node that is not a directory, what opening and reading it
  gives.
\<close>

datatype 'b listed = ListedDir | ListedFile "'b readable"

record 'b visit =
  visit_path :: string
  visit_info :: file_info
  visit_node :: "'b listed"

datatype listing_error =
    ErrorWalkingPath string string
  | UnableToOpenListed string
  | UnableToHashListed string

text \<open>
  \<open>filepath.Walk\<close>, as far as the walk function of \<open>NewFileListing\<close> lets it run: that
  function returns an error exactly when it is handed one, so the walk either visits
  every node, each directory before its entries and an entry under the path of its
  directory joined with its name, or it stops at the first node that cannot be examined
  and returns the error, here with the path of that node.
\<close>

fun walk :: "string \<Rightarrow> 'b tree \<Rightarrow> string + 'b visit list"
  and walk_entries :: "string \<Rightarrow> (string \<times> 'b tree) list \<Rightarrow> string + 'b visit list" where
  "walk path (FileNode info file) =
     Inr [\<lparr>visit_path = path, visit_info = info, visit_node = ListedFile file\<rparr>]"
| "walk path (DirNode info entries) =
     (case walk_entries path entries of
        Inl e \<Rightarrow> Inl e
      | Inr vs \<Rightarrow>
          Inr (\<lparr>visit_path = path, visit_info = info, visit_node = ListedDir\<rparr> # vs))"
| "walk path (DirUnreadable info) = Inl path"
| "walk path LstatFails = Inl path"
| "walk_entries path [] = Inr []"
| "walk_entries path ((name, t) # rest) =
     (case walk (filepath_Join [path, name]) t of
        Inl e \<Rightarrow> Inl e
      | Inr vs \<Rightarrow>
          (case walk_entries path rest of
             Inl e \<Rightarrow> Inl e
           | Inr ws \<Rightarrow> Inr (vs @ ws)))"

text \<open>
  The goroutine started for a visit: what it sends on the channel. The digest function is
  a parameter.
\<close>

definition unit_of_work :: "('b \<Rightarrow> string) \<Rightarrow> 'b visit \<Rightarrow> listing_error + FileEntry" where
  "unit_of_work digest v =
     (let e = \<lparr>Path = visit_path v, Mode = info_Mode (visit_info v),
                ModificationTime = info_ModTime (visit_info v), listing_SHA256 = []\<rparr>
      in case visit_node v of
           ListedDir \<Rightarrow> Inr e
         | ListedFile OpenFails \<Rightarrow> Inl (UnableToOpenListed (visit_path v))
         | ListedFile ReadFails \<Rightarrow> Inl (UnableToHashListed (visit_path v))
         | ListedFile (Content b) \<Rightarrow> Inr (e\<lparr>listing_SHA256 := digest b\<rparr>))"

text \<open>
  The loop \<open>for r := range ch\<close>: the results in the order the channel delivers them; the
  first error returns.
\<close>

fun receive ::
  "(listing_error + FileEntry) list \<Rightarrow> FileEntry list \<Rightarrow> listing_error + FileEntry list" where
  "receive [] e = Inr e"
| "receive (Inl err # rs) e = Inl err"
| "receive (Inr v # rs) e = receive rs (e @ [v])"

text \<open>
  \<open>NewFileListing\<close>. The goroutines run concurrently and the channel delivers their
  results in some order: the argument \<open>deliver\<close> is that order, a rearrangement of the
  results in the order the goroutines were started.
\<close>

definition NewFileListing ::
  "('b \<Rightarrow> string) \<Rightarrow> string \<Rightarrow> 'b tree
     \<Rightarrow> ((listing_error + FileEntry) list \<Rightarrow> (listing_error + FileEntry) list)
     \<Rightarrow> listing_error + FileEntry list" where
  "NewFileListing digest root t deliver =
     (case walk root t of
        Inl e \<Rightarrow> Inl (ErrorWalkingPath root e)
      | Inr visits \<Rightarrow>
          (case receive (deliver (map (unit_of_work digest)
                                    (filter (\<lambda>v. visit_path v \<noteq> root) visits))) [] of
             Inl err \<Rightarrow> Inl err
           | Inr e \<Rightarrow> Inr (sort_Slice (\<lambda>a b. Path a < Path b) e)))"




subsection \<open>A tree for the examples\<close>

definition example_info :: file_info where
  "example_info = \<lparr>info_Mode = ''-rw-r--r--'', info_ModTime = ''2020-01-01T00:00:00Z''\<rparr>"

definition example_dir_info :: file_info where
  "example_dir_info = \<lparr>info_Mode = ''drwxr-xr-x'', info_ModTime = ''2020-01-01T00:00:00Z''\<rparr>"

definition example_tree :: "example_content tree" where
  "example_tree =
     DirNode example_dir_info
       [(''x.txt'', FileNode example_info (Content (Blob ''test-fixture''))),
        (''y'', DirNode example_dir_info
                 [(''z.txt'', FileNode example_info (Content (Blob ''alternate-fixture'')))])]"

definition example_listing :: "FileEntry list" where
  "example_listing =
     [\<lparr>Path = ''root/x.txt'', Mode = ''-rw-r--r--'', ModificationTime = ''2020-01-01T00:00:00Z'',
       listing_SHA256 = ''576dd8416de5619ea001d9662291d62444d1292a38e96956bc4651c01f14bca1''\<rparr>,
      \<lparr>Path = ''root/y'', Mode = ''drwxr-xr-x'', ModificationTime = ''2020-01-01T00:00:00Z'',
       listing_SHA256 = []\<rparr>,
      \<lparr>Path = ''root/y/z.txt'', Mode = ''-rw-r--r--'', ModificationTime = ''2020-01-01T00:00:00Z'',
       listing_SHA256 = ''87e01708328c85af454981e94080726aedd64d31b4d4f87b7a0ae22db4f7c411''\<rparr>]"
section \<open>Properties of the resolver\<close>

lemma contains_iff: "contains cs v \<longleftrightarrow> v \<in> set cs"
  by (induction cs) auto

lemma Resolve_loop_eq:
  "Resolve_loop sv vc i stack cs acc =
     (case find (\<lambda>c. NewVersion sv (Version c) = None) cs of
        Some c \<Rightarrow> Inl (UnableToParseVersion (Version c))
      | None \<Rightarrow> Inr (acc @ filter (candidate sv vc i stack) cs))"
  by (induction cs arbitrary: acc) (auto simp: candidate_def contains_iff split: option.splits)

lemma set_insert_Slice: "set (insert_Slice lt x ys) = insert x (set ys)"
  by (induction ys) auto

lemma set_sort_Slice: "set (sort_Slice lt xs) = set xs"
  unfolding sort_Slice_def by (induction xs) (auto simp: set_insert_Slice)

lemma length_insert_Slice: "length (insert_Slice lt x ys) = Suc (length ys)"
  by (induction ys) auto

lemma length_sort_Slice: "length (sort_Slice lt xs) = length xs"
  unfolding sort_Slice_def by (induction xs) (auto simp: length_insert_Slice)

lemma sorted_insert_Slice:
  assumes asym: "\<And>a b. a \<in> A \<Longrightarrow> b \<in> A \<Longrightarrow> lt a b \<Longrightarrow> \<not> lt b a"
      and negtrans: "\<And>a b c. a \<in> A \<Longrightarrow> b \<in> A \<Longrightarrow> c \<in> A \<Longrightarrow> \<not> lt a b \<Longrightarrow> \<not> lt b c \<Longrightarrow> \<not> lt a c"
      and x: "x \<in> A"
  shows "set ys \<subseteq> A \<Longrightarrow> sorted_wrt (\<lambda>a b. \<not> lt b a) ys
           \<Longrightarrow> sorted_wrt (\<lambda>a b. \<not> lt b a) (insert_Slice lt x ys)"
proof (induction ys)
  case Nil
  then show ?case by simp
next
  case (Cons y ys)
  from Cons.prems have y: "y \<in> A" and ys: "set ys \<subseteq> A" by auto
  show ?case
  proof (cases "lt y x")
    case True
    then have "\<not> lt x y" using asym y x by blast
    with Cons True ys show ?thesis by (auto simp: set_insert_Slice)
  next
    case False
    have "\<not> lt z x" if "z \<in> set ys" for z
    proof -
      from Cons.prems that have "\<not> lt z y" by simp
      moreover from that ys have "z \<in> A" by blast
      ultimately show ?thesis using False negtrans y x by blast
    qed
    with Cons.prems False show ?thesis by auto
  qed
qed

lemma sorted_sort_Slice:
  assumes asym: "\<And>a b. a \<in> A \<Longrightarrow> b \<in> A \<Longrightarrow> lt a b \<Longrightarrow> \<not> lt b a"
      and negtrans: "\<And>a b c. a \<in> A \<Longrightarrow> b \<in> A \<Longrightarrow> c \<in> A \<Longrightarrow> \<not> lt a b \<Longrightarrow> \<not> lt b c \<Longrightarrow> \<not> lt a c"
  shows "set xs \<subseteq> A \<Longrightarrow> sorted_wrt (\<lambda>a b. \<not> lt b a) (sort_Slice lt xs)"
proof (induction xs)
  case Nil
  then show ?case by (simp add: sort_Slice_def)
next
  case (Cons x xs)
  then have "sorted_wrt (\<lambda>a b. \<not> lt b a) (sort_Slice lt xs)" by simp
  moreover have "set (sort_Slice lt xs) \<subseteq> A" using Cons.prems by (simp add: set_sort_Slice)
  moreover have "x \<in> A" using Cons.prems by simp
  ultimately have "sorted_wrt (\<lambda>a b. \<not> lt b a) (insert_Slice lt x (sort_Slice lt xs))"
    using sorted_insert_Slice [of A lt x "sort_Slice lt xs"] asym negtrans by blast
  then show ?case by (simp add: sort_Slice_def)
qed

lemma head_sort_Slice:
  assumes asym: "\<forall>a \<in> set xs. \<forall>b \<in> set xs. lt a b \<longrightarrow> \<not> lt b a"
      and negtrans: "\<forall>a \<in> set xs. \<forall>b \<in> set xs. \<forall>c \<in> set xs.
                       \<not> lt a b \<longrightarrow> \<not> lt b c \<longrightarrow> \<not> lt a c"
      and srt: "sort_Slice lt xs = x # rest"
  shows "x \<in> set xs \<and> (\<forall>c \<in> set xs. \<not> lt c x)"
proof -
  have "sorted_wrt (\<lambda>a b. \<not> lt b a) (sort_Slice lt xs)"
  proof (rule sorted_sort_Slice [where A = "set xs"])
    show "set xs \<subseteq> set xs" by simp
  next
    fix a b assume "a \<in> set xs" "b \<in> set xs" "lt a b"
    with asym show "\<not> lt b a" by blast
  next
    fix a b c assume "a \<in> set xs" "b \<in> set xs" "c \<in> set xs" "\<not> lt a b" "\<not> lt b c"
    with negtrans show "\<not> lt a c" by blast
  qed
  then have s: "sorted_wrt (\<lambda>a b. \<not> lt b a) (x # rest)" using srt by simp
  have m: "set xs = insert x (set rest)"
    using set_sort_Slice [of lt xs] srt by simp
  then have "x \<in> set xs" by simp
  then have "\<not> lt x x" using asym by blast
  with s m show ?thesis by auto
qed

lemma Resolve_Inr:
  assumes "Resolve sv d i version = Inr x"
  shows "\<exists>vc rest. NewConstraint sv (if version = [] then ''*'' else version) = Some vc
           \<and> sort_Slice (Resolve_less sv)
                (filter (candidate sv vc i (StackID d)) (Dependencies d)) = x # rest"
  using assms
  by (auto simp: Resolve_def Let_def Resolve_loop_eq split: option.splits sum.splits if_splits list.splits)

lemma example_GreaterThan_asym: "example_GreaterThan a b \<Longrightarrow> \<not> example_GreaterThan b a"
  by (cases a; cases b) auto

lemma example_GreaterThan_negtrans:
  "\<not> example_GreaterThan a b \<Longrightarrow> \<not> example_GreaterThan b c \<Longrightarrow> \<not> example_GreaterThan a c"
  by (cases a; cases b; cases c) auto

lemma example_Resolve_any:
  "Resolve example_semver example_resolver ''jdk'' [] =
     Inr (example_dependency ''jdk'' ''10.0.0'' [''tiny'', ''bionic''])"
  by (simp add: Resolve_def example_semver_def example_resolver_def example_dependency_def
      sort_Slice_def Resolve_less_def)


lemma find_unparsable:
  assumes "c \<in> set cs" "NewVersion sv (Version c) = None"
  shows "\<exists>c'. find (\<lambda>c. NewVersion sv (Version c) = None) cs = Some c'"
  using assms by (cases "find (\<lambda>c. NewVersion sv (Version c) = None) cs") (auto simp: find_None_iff)

lemma Resolve_unparsable:
  assumes "find (\<lambda>c. NewVersion sv (Version c) = None) (Dependencies d) = Some c'"
  shows "Resolve sv d i version =
           (case NewConstraint sv (if version = [] then ''*'' else version) of
              None \<Rightarrow> Inl (InvalidConstraint (if version = [] then ''*'' else version))
            | Some vc \<Rightarrow> Inl (UnableToParseVersion (Version c')))"
  using assms by (simp add: Resolve_def Let_def Resolve_loop_eq split: option.splits)

lemma Any_iff: "Any sv d i version \<longleftrightarrow> (\<exists>x. Resolve sv d i version = Inr x)"
  by (simp add: Any_def split: sum.splits)

lemma Resolve_no_candidate:
  assumes "NewConstraint sv (if version = [] then ''*'' else version) = Some vc"
      and "\<forall>c \<in> set (Dependencies d). NewVersion sv (Version c) \<noteq> None"
      and "\<forall>c \<in> set (Dependencies d). \<not> candidate sv vc i (StackID d) c"
  shows "Resolve sv d i version =
           Inl (NoValidDependenciesError i (if version = [] then ''*'' else version)
                  (StackID d) (Dependencies d))"
proof -
  from assms(2) have "find (\<lambda>c. NewVersion sv (Version c) = None) (Dependencies d) = None"
    by (simp add: find_None_iff)
  moreover from assms(3) have "filter (candidate sv vc i (StackID d)) (Dependencies d) = []"
    by (simp add: filter_empty_conv)
  ultimately show ?thesis using assms(1)
    by (simp add: Resolve_def Let_def Resolve_loop_eq)
qed

lemma Resolve_never_out_of_range: "Resolve sv d i version \<noteq> Inl IndexOutOfRange"
proof -
  have "sort_Slice lt cs \<noteq> []" if "cs \<noteq> []" for lt and cs :: "BuildpackDependency list"
    using that length_sort_Slice [of lt cs] by auto
  then show ?thesis
    by (auto simp: Resolve_def Let_def Resolve_loop_eq split: option.splits list.splits)
qed

text \<open>
  Claim C1. When \<open>Resolve\<close> succeeds, the dependency it returns is one of the catalog
  entries whose ID is the requested id, whose version satisfies the parsed constraint and
  whose stacks contain the resolver's stack id, and no such entry has a version that the
  library's \<open>GreaterThan\<close> puts above the returned one. The ordering is the library's
  semantic-version ordering, taken here as any relation that is asymmetric and whose
  complement is transitive (a strict weak order); the example resolves to 10.0.0 where
  the string order would prefer 9.0.0.
\<close>

theorem Resolve_returns_maximum_version:
  assumes asym: "\<And>a b. GreaterThan sv a b \<Longrightarrow> \<not> GreaterThan sv b a"
      and negtrans: "\<And>a b c. \<not> GreaterThan sv a b \<Longrightarrow> \<not> GreaterThan sv b c \<Longrightarrow> \<not> GreaterThan sv a c"
      and ok: "Resolve sv d i version = Inr x"
  shows "\<exists>vc vx. NewConstraint sv (if version = [] then ''*'' else version) = Some vc
           \<and> x \<in> set (Dependencies d) \<and> candidate sv vc i (StackID d) x
           \<and> NewVersion sv (Version x) = Some vx
           \<and> (\<forall>c \<in> set (Dependencies d). \<forall>v. candidate sv vc i (StackID d) c
                 \<longrightarrow> NewVersion sv (Version c) = Some v \<longrightarrow> \<not> GreaterThan sv v vx)"
proof -
  from Resolve_Inr [OF ok] obtain vc rest where
    vc: "NewConstraint sv (if version = [] then ''*'' else version) = Some vc" and
    srt: "sort_Slice (Resolve_less sv)
            (filter (candidate sv vc i (StackID d)) (Dependencies d)) = x # rest"
    by blast
  let ?cs = "filter (candidate sv vc i (StackID d)) (Dependencies d)"
  have parsed: "\<exists>v. NewVersion sv (Version c) = Some v" if "c \<in> set ?cs" for c
    using that by (auto simp: candidate_def split: option.splits)
  have a: "\<not> Resolve_less sv b a" if "a \<in> set ?cs" "b \<in> set ?cs" "Resolve_less sv a b" for a b
  proof -
    from parsed [OF that(1)] obtain va where pa: "NewVersion sv (Version a) = Some va" ..
    from parsed [OF that(2)] obtain vb where pb: "NewVersion sv (Version b) = Some vb" ..
    note p = pa pb
    with that(3) have "GreaterThan sv va vb" by (simp add: Resolve_less_def)
    then have "\<not> GreaterThan sv vb va" by (rule asym)
    with p show ?thesis by (simp add: Resolve_less_def)
  qed
  have n: "\<not> Resolve_less sv a c"
    if "a \<in> set ?cs" "b \<in> set ?cs" "c \<in> set ?cs" "\<not> Resolve_less sv a b" "\<not> Resolve_less sv b c"
    for a b c
  proof -
    from parsed [OF that(1)] obtain va where pa: "NewVersion sv (Version a) = Some va" ..
    from parsed [OF that(2)] obtain vb where pb: "NewVersion sv (Version b) = Some vb" ..
    from parsed [OF that(3)] obtain vc' where pc: "NewVersion sv (Version c) = Some vc'" ..
    note p = pa pb pc
    from that(4) p have "\<not> GreaterThan sv va vb" by (simp add: Resolve_less_def)
    moreover from that(5) p have "\<not> GreaterThan sv vb vc'" by (simp add: Resolve_less_def)
    ultimately have "\<not> GreaterThan sv va vc'" by (rule negtrans)
    with p show ?thesis by (simp add: Resolve_less_def)
  qed
  have a': "\<forall>a \<in> set ?cs. \<forall>b \<in> set ?cs. Resolve_less sv a b \<longrightarrow> \<not> Resolve_less sv b a"
    using a by blast
  have n': "\<forall>a \<in> set ?cs. \<forall>b \<in> set ?cs. \<forall>c \<in> set ?cs.
              \<not> Resolve_less sv a b \<longrightarrow> \<not> Resolve_less sv b c \<longrightarrow> \<not> Resolve_less sv a c"
    using n by blast
  from head_sort_Slice [OF a' n' srt]
  have hd: "x \<in> set ?cs" and mx: "\<forall>c \<in> set ?cs. \<not> Resolve_less sv c x" by blast+
  from parsed [OF hd] obtain vx where vx: "NewVersion sv (Version x) = Some vx" ..
  have mx': "\<not> GreaterThan sv v vx"
    if "c \<in> set (Dependencies d)" "candidate sv vc i (StackID d) c" "NewVersion sv (Version c) = Some v"
    for c v
  proof -
    from that have "c \<in> set ?cs" by simp
    with mx have "\<not> Resolve_less sv c x" by blast
    with that(3) vx show ?thesis by (simp add: Resolve_less_def)
  qed
  from hd have hd': "x \<in> set (Dependencies d)" "candidate sv vc i (StackID d) x" by simp_all
  show ?thesis
    apply (rule exI [of _ vc])
    apply (rule exI [of _ vx])
    using vc hd' vx mx' apply (intro conjI ballI allI impI)
        apply assumption+
    done
qed

theorem Resolve_returns_maximum_version_witness:
  "Resolve example_semver example_resolver ''jdk'' [] =
     Inr (example_dependency ''jdk'' ''10.0.0'' [''tiny'', ''bionic''])
   \<and> (\<exists>vc vx. NewConstraint example_semver ''*'' = Some vc
         \<and> example_dependency ''jdk'' ''10.0.0'' [''tiny'', ''bionic'']
             \<in> set (Dependencies example_resolver)
         \<and> candidate example_semver vc ''jdk'' (StackID example_resolver)
             (example_dependency ''jdk'' ''10.0.0'' [''tiny'', ''bionic''])
         \<and> NewVersion example_semver ''10.0.0'' = Some vx
         \<and> (\<forall>c \<in> set (Dependencies example_resolver). \<forall>v.
               candidate example_semver vc ''jdk'' (StackID example_resolver) c
                 \<longrightarrow> NewVersion example_semver (Version c) = Some v
                 \<longrightarrow> \<not> GreaterThan example_semver v vx))"
proof -
  have a: "\<And>a b. GreaterThan example_semver a b \<Longrightarrow> \<not> GreaterThan example_semver b a"
    by (simp add: example_semver_def example_GreaterThan_asym)
  have n: "\<And>a b c. \<not> GreaterThan example_semver a b \<Longrightarrow> \<not> GreaterThan example_semver b c
             \<Longrightarrow> \<not> GreaterThan example_semver a c"
    unfolding example_semver_def by simp (rule example_GreaterThan_negtrans)
  have v: "Version (example_dependency ''jdk'' ''10.0.0'' [''tiny'', ''bionic'']) = ''10.0.0''"
    by (simp add: example_dependency_def)
  from Resolve_returns_maximum_version [OF a n example_Resolve_any] example_Resolve_any
  show ?thesis unfolding v by simp
qed

text \<open>
  Claim C2. If some entry of the catalog has a version that does not parse, whatever its
  ID and stacks, \<open>Resolve\<close> fails with a parse error: the error of the first such entry
  in catalog order or, when the constraint expression itself is malformed, the error of
  the constraint, which is parsed first. The entry is never skipped.
\<close>

theorem Resolve_unparsable_version_is_fatal:
  assumes "c \<in> set (Dependencies d)" and "NewVersion sv (Version c) = None"
  shows "\<exists>c'. find (\<lambda>c. NewVersion sv (Version c) = None) (Dependencies d) = Some c'
           \<and> Resolve sv d i version =
               (case NewConstraint sv (if version = [] then ''*'' else version) of
                  None \<Rightarrow> Inl (InvalidConstraint (if version = [] then ''*'' else version))
                | Some vc \<Rightarrow> Inl (UnableToParseVersion (Version c')))"
proof -
  from find_unparsable [OF assms] obtain c' where
    "find (\<lambda>c. NewVersion sv (Version c) = None) (Dependencies d) = Some c'" ..
  with Resolve_unparsable [OF this] show ?thesis by blast
qed

theorem Resolve_unparsable_version_is_fatal_witness:
  "example_dependency ''maven'' ''three'' [''tiny''] \<in> set (Dependencies example_malformed_resolver)
   \<and> NewVersion example_semver (Version (example_dependency ''maven'' ''three'' [''tiny''])) = None
   \<and> ID (example_dependency ''maven'' ''three'' [''tiny'']) \<noteq> ''jdk''
   \<and> Resolve example_semver example_malformed_resolver ''jdk'' [] = Inl (UnableToParseVersion ''three'')"
proof -
  have m: "example_dependency ''maven'' ''three'' [''tiny''] \<in> set (Dependencies example_malformed_resolver)"
    by (simp add: example_malformed_resolver_def)
  have n: "NewVersion example_semver (Version (example_dependency ''maven'' ''three'' [''tiny''])) = None"
    by (simp add: example_semver_def example_dependency_def)
  have f: "find (\<lambda>c. NewVersion example_semver (Version c) = None)
             (Dependencies example_malformed_resolver)
           = Some (example_dependency ''maven'' ''three'' [''tiny''])"
    by (simp add: example_malformed_resolver_def example_semver_def example_dependency_def)
  have c: "NewConstraint example_semver ''*'' = Some []"
    by (simp add: example_semver_def)
  from Resolve_unparsable_version_is_fatal [OF m n, of "''jdk''" "[]"] f c
  have "Resolve example_semver example_malformed_resolver ''jdk'' [] = Inl (UnableToParseVersion ''three'')"
    by (simp add: example_dependency_def)
  with m n show ?thesis by (simp add: example_dependency_def)
qed

text \<open>
  Claim C3. \<open>Any\<close> is true exactly when \<open>Resolve\<close> returns a dependency. When the
  constraint parses, every catalog version parses and none satisfies it, \<open>Resolve\<close>
  returns \<open>NoValidDependenciesError\<close> and \<open>Any\<close> is false.
\<close>

theorem Any_iff_Resolve_succeeds:
  "(Any sv d i version \<longleftrightarrow> (\<exists>x. Resolve sv d i version = Inr x))
   \<and> (\<forall>vc. NewConstraint sv (if version = [] then ''*'' else version) = Some vc
         \<longrightarrow> (\<forall>c \<in> set (Dependencies d). \<exists>v. NewVersion sv (Version c) = Some v \<and> \<not> Check sv vc v)
         \<longrightarrow> Resolve sv d i version =
               Inl (NoValidDependenciesError i (if version = [] then ''*'' else version)
                      (StackID d) (Dependencies d))
             \<and> \<not> Any sv d i version)"
proof (intro conjI allI impI)
  show "Any sv d i version \<longleftrightarrow> (\<exists>x. Resolve sv d i version = Inr x)" by (rule Any_iff)
next
  fix vc
  assume vc: "NewConstraint sv (if version = [] then ''*'' else version) = Some vc"
    and un: "\<forall>c \<in> set (Dependencies d). \<exists>v. NewVersion sv (Version c) = Some v \<and> \<not> Check sv vc v"
  from un have p: "\<forall>c \<in> set (Dependencies d). NewVersion sv (Version c) \<noteq> None" by auto
  from un have q: "\<forall>c \<in> set (Dependencies d). \<not> candidate sv vc i (StackID d) c"
    by (auto simp: candidate_def)
  show r: "Resolve sv d i version =
          Inl (NoValidDependenciesError i (if version = [] then ''*'' else version)
                 (StackID d) (Dependencies d))"
    by (rule Resolve_no_candidate [OF vc p q])
  show "\<not> Any sv d i version" by (simp add: Any_iff r)
qed

theorem Any_iff_Resolve_succeeds_witness:
  "NewConstraint example_semver ''>=12'' = Some [(AtLeast, (12, 0, 0))]
   \<and> list_all (\<lambda>c. \<exists>v. NewVersion example_semver (Version c) = Some v
                       \<and> \<not> Check example_semver [(AtLeast, (12, 0, 0))] v)
        (Dependencies example_resolver)
   \<and> Resolve example_semver example_resolver ''jdk'' ''>=12'' =
       Inl (NoValidDependenciesError ''jdk'' ''>=12'' ''bionic'' (Dependencies example_resolver))
   \<and> \<not> Any example_semver example_resolver ''jdk'' ''>=12''
   \<and> Any example_semver example_resolver ''jdk'' ''>=11 <12'' = False
   \<and> Any example_semver example_resolver ''maven'' ''>=11 <12'' = True"
proof -
  have c: "NewConstraint example_semver (if ''>=12'' = [] then ''*'' else ''>=12'')
             = Some [(AtLeast, (12, 0, 0))]"
    by (simp add: example_semver_def)
  have u: "\<forall>c \<in> set (Dependencies example_resolver).
             \<exists>v. NewVersion example_semver (Version c) = Some v
                \<and> \<not> Check example_semver [(AtLeast, (12, 0, 0))] v"
    by (simp add: example_semver_def example_resolver_def example_dependency_def)
  have s: "StackID example_resolver = ''bionic''" by (simp add: example_resolver_def)
  have r1: "Resolve example_semver example_resolver ''jdk'' ''>=11 <12'' =
              Inl (NoValidDependenciesError ''jdk'' ''>=11 <12'' ''bionic'' (Dependencies example_resolver))"
    by (simp add: Resolve_def example_semver_def example_resolver_def example_dependency_def)
  have r2: "Resolve example_semver example_resolver ''maven'' ''>=11 <12'' =
              Inr (example_dependency ''maven'' ''11.0.2'' [''bionic''])"
    by (simp add: Resolve_def example_semver_def example_resolver_def example_dependency_def
        sort_Slice_def)
  from Any_iff_Resolve_succeeds
         [of example_semver example_resolver "''jdk''" "''>=12''", THEN conjunct2, THEN spec, THEN mp, THEN mp, OF c u]
  have "Resolve example_semver example_resolver ''jdk'' ''>=12'' =
          Inl (NoValidDependenciesError ''jdk'' ''>=12'' ''bionic'' (Dependencies example_resolver))
        \<and> \<not> Any example_semver example_resolver ''jdk'' ''>=12''"
    unfolding s by simp
  moreover from Any_iff_Resolve_succeeds [of example_semver example_resolver "''jdk''" "''>=11 <12''"] r1
  have "Any example_semver example_resolver ''jdk'' ''>=11 <12'' = False" by simp
  moreover from Any_iff_Resolve_succeeds [of example_semver example_resolver "''maven''" "''>=11 <12''"] r2
  have "Any example_semver example_resolver ''maven'' ''>=11 <12'' = True" by simp
  ultimately show ?thesis using c u by (simp add: list_all_iff)
qed

text \<open>
  Claim C10. \<open>Any\<close> is false for every error of \<open>Resolve\<close>: for the no-match error,
  for a malformed constraint expression, and for an unparsable version anywhere in the
  catalog. The three cases give the same answer.
\<close>

theorem Any_false_on_every_Resolve_failure:
  "(\<forall>e. Resolve sv d i version = Inl e \<longrightarrow> \<not> Any sv d i version)
   \<and> (NewConstraint sv (if version = [] then ''*'' else version) = None \<longrightarrow> \<not> Any sv d i version)
   \<and> ((\<exists>c \<in> set (Dependencies d). NewVersion sv (Version c) = None) \<longrightarrow> \<not> Any sv d i version)"
proof (intro conjI allI impI)
  fix e assume "Resolve sv d i version = Inl e"
  then show "\<not> Any sv d i version" by (simp add: Any_def)
next
  assume "NewConstraint sv (if version = [] then ''*'' else version) = None"
  then show "\<not> Any sv d i version" by (simp add: Any_def Resolve_def Let_def)
next
  assume "\<exists>c \<in> set (Dependencies d). NewVersion sv (Version c) = None"
  then obtain c where "c \<in> set (Dependencies d)" "NewVersion sv (Version c) = None" by blast
  from find_unparsable [OF this] obtain c' where
    "find (\<lambda>c. NewVersion sv (Version c) = None) (Dependencies d) = Some c'" ..
  from Resolve_unparsable [OF this, of i version]
  show "\<not> Any sv d i version" by (simp add: Any_def split: option.splits)
qed

theorem Any_false_on_every_Resolve_failure_witness:
  "Resolve example_semver example_resolver ''jdk'' ''>=12'' =
     Inl (NoValidDependenciesError ''jdk'' ''>=12'' ''bionic'' (Dependencies example_resolver))
   \<and> \<not> Any example_semver example_resolver ''jdk'' ''>=12''
   \<and> NewConstraint example_semver ''>12'' = None
   \<and> Resolve example_semver example_resolver ''jdk'' ''>12'' = Inl (InvalidConstraint ''>12'')
   \<and> \<not> Any example_semver example_resolver ''jdk'' ''>12''
   \<and> (\<exists>c \<in> set (Dependencies example_malformed_resolver). NewVersion example_semver (Version c) = None)
   \<and> Resolve example_semver example_malformed_resolver ''jdk'' [] = Inl (UnableToParseVersion ''three'')
   \<and> \<not> Any example_semver example_malformed_resolver ''jdk'' []"
proof -
  have r1: "Resolve example_semver example_resolver ''jdk'' ''>=12'' =
     Inl (NoValidDependenciesError ''jdk'' ''>=12'' ''bionic'' (Dependencies example_resolver))"
    by (simp add: Resolve_def example_semver_def example_resolver_def example_dependency_def)
  have c2: "NewConstraint example_semver (if ''>12'' = [] then ''*'' else ''>12'') = None"
    by (simp add: example_semver_def)
  have r2: "Resolve example_semver example_resolver ''jdk'' ''>12'' = Inl (InvalidConstraint ''>12'')"
    by (simp add: Resolve_def example_semver_def)
  have m3: "\<exists>c \<in> set (Dependencies example_malformed_resolver). NewVersion example_semver (Version c) = None"
    by (simp add: example_semver_def example_malformed_resolver_def example_dependency_def)
  have r3: "Resolve example_semver example_malformed_resolver ''jdk'' [] = Inl (UnableToParseVersion ''three'')"
    by (simp add: Resolve_def example_semver_def example_malformed_resolver_def example_dependency_def)
  from Any_false_on_every_Resolve_failure [of example_semver example_resolver "''jdk''" "''>=12''"] r1
  have a1: "\<not> Any example_semver example_resolver ''jdk'' ''>=12''" by blast
  from Any_false_on_every_Resolve_failure [of example_semver example_resolver "''jdk''" "''>12''"] c2
  have a2: "\<not> Any example_semver example_resolver ''jdk'' ''>12''" by blast
  from Any_false_on_every_Resolve_failure [of example_semver example_malformed_resolver "''jdk''" "[]"] m3
  have a3: "\<not> Any example_semver example_malformed_resolver ''jdk'' []" by blast
  from r1 a1 c2 r2 a2 m3 r3 a3 show ?thesis by simp
qed

section \<open>Properties of the file system\<close>




section \<open>Properties of the dependency cache\<close>












lemma Artifact_first_tier_hit:
  assumes "SHA256 dependency \<noteq> []"
      and "DecodeFile sys (world_fs w)
             (filepath_Join [CachePath d, SHA256 dependency @ ''.toml''])
             zero_BuildpackDependency = Inr dependency"
  shows "Artifact sys d dependency w
           = (open_result (world_fs w)
                (filepath_Join [CachePath d, SHA256 dependency, filepath_Base (URI dependency)]), w)"
  using assms by (simp add: Artifact_def Let_def)

lemma Artifact_second_tier_hit:
  assumes "SHA256 dependency \<noteq> []"
      and "DecodeFile sys (world_fs w)
             (filepath_Join [CachePath d, SHA256 dependency @ ''.toml''])
             zero_BuildpackDependency = Inr actual1"
      and "dependency \<noteq> actual1"
      and "DecodeFile sys (world_fs w)
             (filepath_Join [DownloadPath d, SHA256 dependency @ ''.toml''])
             actual1 = Inr dependency"
  shows "Artifact sys d dependency w
           = (open_result (world_fs w)
                (filepath_Join [DownloadPath d, SHA256 dependency, filepath_Base (URI dependency)]), w)"
  using assms by (simp add: Artifact_def Let_def)




text \<open>
  Claim C5 says that a cache tier gives a hit only when its own sidecar descriptor is equal
  to the requested dependency in every field. \<open>Artifact\<close> decodes the sidecar of the
  permanent tier into a fresh zero value (\<open>Artifact_first_tier_hit\<close>), but it decodes the
  sidecar of the download tier into the same variable, which still holds what the first
  sidecar left there (\<open>Artifact_second_tier_hit\<close>), and the decoder only sets the keys that
  the file contains. In \<open>stale_world\<close> the permanent tier describes the dependency under
  another name and the download tier describes it without licenses; neither descriptor
  is equal to \<open>test_dependency\<close>, and yet \<open>Artifact\<close> returns the artifact of the download
  tier and sends no request: the licenses come from the first sidecar and the name from
  the second.
\<close>

theorem Artifact_second_tier_hit_on_merged_descriptor:
  "fst (Artifact (example_system ''test-fixture'') example_cache test_dependency stale_world)
     = Inr (''/downloads/576dd8416de5619ea001d9662291d62444d1292a38e96956bc4651c01f14bca1/test-path'',
            Blob ''test-fixture'')
   \<and> world_requests
         (snd (Artifact (example_system ''test-fixture'') example_cache test_dependency stale_world))
       = []
   \<and> DecodeFile (example_system ''test-fixture'') (world_fs stale_world)
         ''/cache/576dd8416de5619ea001d9662291d62444d1292a38e96956bc4651c01f14bca1.toml''
         zero_BuildpackDependency
       = Inr (test_dependency\<lparr>Name := ''old-name''\<rparr>)
   \<and> DecodeFile (example_system ''test-fixture'') (world_fs stale_world)
         ''/downloads/576dd8416de5619ea001d9662291d62444d1292a38e96956bc4651c01f14bca1.toml''
         zero_BuildpackDependency
       = Inr (test_dependency\<lparr>Licenses := []\<rparr>)
   \<and> test_dependency\<lparr>Name := ''old-name''\<rparr> \<noteq> test_dependency
   \<and> test_dependency\<lparr>Licenses := []\<rparr> \<noteq> test_dependency"
  by code_simp







section \<open>Properties of the extraction\<close>






section \<open>Properties of the file listing\<close>

lemma receive_Inr: "receive rs e = Inr out \<longleftrightarrow> (\<exists>vs. rs = map Inr vs \<and> out = e @ vs)"
proof (induction rs e rule: receive.induct)
  case (1 e)
  then show ?case by auto
next
  case (2 err rs e)
  then show ?case by (auto simp: map_eq_Cons_conv)
next
  case (3 v rs e)
  then show ?case by (auto simp: map_eq_Cons_conv)
qed

lemma unit_of_work_Inr:
  assumes "unit_of_work digest v = Inr e"
  shows "Path e = visit_path v \<and> Mode e = info_Mode (visit_info v)
         \<and> ModificationTime e = info_ModTime (visit_info v)
         \<and> (case visit_node v of
               ListedDir \<Rightarrow> listing_SHA256 e = []
             | ListedFile f \<Rightarrow> \<exists>b. f = Content b \<and> listing_SHA256 e = digest b)"
  using assms by (auto simp: unit_of_work_def Let_def split: listed.splits readable.splits)

lemma mset_map_Inr:
  fixes vs :: "'b list" and rs :: "('a + 'b) list"
  assumes "mset (map Inr vs) = mset rs"
  shows "\<exists>ws. rs = map Inr ws \<and> mset ws = mset vs"
proof (intro exI conjI)
  from assms have "set (map Inr vs) = set rs" by (rule mset_eq_setD)
  then have "\<forall>r \<in> set rs. \<exists>v. r = Inr v" by (simp add: image_iff set_eq_iff) blast
  then have "\<forall>r \<in> set rs. Inr (projr r) = r" by auto
  then show "rs = map Inr (map projr rs)" by (simp add: map_idI)
  have "image_mset projr (mset (map (Inr :: 'b \<Rightarrow> 'a + 'b) vs)) = image_mset projr (mset rs)"
    by (simp only: assms)
  then show "mset (map projr rs) = mset vs" by (simp add: multiset.map_comp comp_def)
qed


lemma example_listing_rev: "NewFileListing example_sha256_hex ''root'' example_tree rev = Inr example_listing"
  by code_simp
lemma mset_sort_Slice: "mset (sort_Slice lt xs) = mset xs"
proof -
  have "mset (insert_Slice lt x ys) = add_mset x (mset ys)" for x ys
    by (induction ys) auto
  then show ?thesis unfolding sort_Slice_def by (induction xs) auto
qed

lemma sorted_by_Path: "sorted (map Path (sort_Slice (\<lambda>a b. Path a < Path b) es))"
proof -
  have "sorted_wrt (\<lambda>a b. \<not> Path b < Path a) (sort_Slice (\<lambda>a b. Path a < Path b) es)"
    by (rule sorted_sort_Slice [where A = UNIV]) auto
  then have "sorted_wrt (\<lambda>a b. Path a \<le> Path b) (sort_Slice (\<lambda>a b. Path a < Path b) es)"
    by (simp add: not_less)
  then show ?thesis by (simp add: sorted_map)
qed

lemma sort_by_Path_unique:
  assumes "mset xs = mset ys" and "distinct (map Path xs)"
  shows "sort_Slice (\<lambda>a b. Path a < Path b) xs = sort_Slice (\<lambda>a b. Path a < Path b) ys"
proof -
  let ?o1 = "sort_Slice (\<lambda>a b. Path a < Path b) xs"
  let ?o2 = "sort_Slice (\<lambda>a b. Path a < Path b) ys"
  have m: "mset ?o1 = mset xs" "mset ?o2 = mset xs" using assms(1) by (simp_all add: mset_sort_Slice)
  then have mp: "mset (map Path ?o1) = mset (map Path xs)" "mset (map Path ?o2) = mset (map Path xs)"
    by (metis mset_map)+
  have d: "distinct (map Path ?o1)" "distinct (map Path ?o2)"
    using mp assms(2) by (metis mset_eq_imp_distinct_iff)+
  have s: "set (map Path ?o1) = set (map Path ?o2)" using mp by (metis mset_eq_setD)
  have p: "map Path ?o1 = map Path ?o2"
    by (rule sorted_distinct_set_unique [OF sorted_by_Path d(1) sorted_by_Path d(2) s])
  have "set ?o1 = set xs" "set ?o2 = set xs" using m by (metis mset_eq_setD)+
  moreover have "inj_on Path (set xs)" using assms(2) by (simp add: distinct_map)
  ultimately have "inj_on Path (set ?o1 \<union> set ?o2)" by simp
  with p show ?thesis by (rule map_inj_on)
qed

lemma units_paths:
  "map (unit_of_work digest) vs = map Inr es \<Longrightarrow> map Path es = map visit_path vs"
proof (induction vs arbitrary: es)
  case Nil
  then show ?case by simp
next
  case (Cons v vs)
  then obtain e es' where es: "es = e # es'" and e: "unit_of_work digest v = Inr e"
    and r: "map (unit_of_work digest) vs = map Inr es'"
    by (cases es) auto
  from unit_of_work_Inr [OF e] have "Path e = visit_path v" by simp
  with Cons.IH [OF r] es show ?case by simp
qed

lemma NewFileListing_Inr:
  assumes perm: "\<And>rs. mset (deliver rs) = mset rs"
      and ok: "NewFileListing digest root t deliver = Inr out"
  shows "\<exists>visits es ds. walk root t = Inr visits
           \<and> map (unit_of_work digest) (filter (\<lambda>v. visit_path v \<noteq> root) visits) = map Inr es
           \<and> mset ds = mset es
           \<and> out = sort_Slice (\<lambda>a b. Path a < Path b) ds"
proof -
  from ok obtain visits where w: "walk root t = Inr visits"
    by (auto simp: NewFileListing_def split: sum.splits)
  let ?units = "map (unit_of_work digest) (filter (\<lambda>v. visit_path v \<noteq> root) visits)"
  from ok w obtain ds where r: "receive (deliver ?units) [] = Inr ds"
    and o: "out = sort_Slice (\<lambda>a b. Path a < Path b) ds"
    by (auto simp: NewFileListing_def split: sum.splits)
  from r have d: "deliver ?units = map Inr ds" by (simp add: receive_Inr)
  from perm [of ?units] d have "mset (map Inr ds) = mset ?units" by simp
  from mset_map_Inr [OF this] obtain es where "?units = map Inr es" "mset es = mset ds" by blast
  with w o show ?thesis by auto
qed

lemma NewFileListing_from_units:
  assumes perm: "\<And>rs. mset (deliver rs) = mset rs"
      and w: "walk root t = Inr visits"
      and u: "map (unit_of_work digest) (filter (\<lambda>v. visit_path v \<noteq> root) visits) = map Inr es"
  shows "\<exists>ds. mset ds = mset es
           \<and> NewFileListing digest root t deliver = Inr (sort_Slice (\<lambda>a b. Path a < Path b) ds)"
proof -
  from perm [of "map Inr es"] have "mset (map Inr es) = mset (deliver (map Inr es))" by simp
  from mset_map_Inr [OF this] obtain ds where
    d: "deliver (map Inr es) = map Inr ds" and m: "mset ds = mset es" by blast
  have "receive (map Inr ds) [] = Inr ds" by (simp add: receive_Inr)
  with w u d m show ?thesis by (auto simp: NewFileListing_def)
qed

lemma example_walk:
  "walk ''root'' example_tree =
     Inr [\<lparr>visit_path = ''root'', visit_info = example_dir_info, visit_node = ListedDir\<rparr>,
          \<lparr>visit_path = ''root/x.txt'', visit_info = example_info,
           visit_node = ListedFile (Content (Blob ''test-fixture''))\<rparr>,
          \<lparr>visit_path = ''root/y'', visit_info = example_dir_info, visit_node = ListedDir\<rparr>,
          \<lparr>visit_path = ''root/y/z.txt'', visit_info = example_info,
           visit_node = ListedFile (Content (Blob ''alternate-fixture''))\<rparr>]"
  by code_simp

text \<open>
  Claim C8. Whatever the order in which the results of the goroutines arrive, a listing
  that \<open>NewFileListing\<close> returns consists of the results of the visits other than the
  root, one entry for each; no entry has the root as its path; the entries are sorted by
  \<open>Path\<close>; the entry of a directory has no digest and the entry of any other node has the
  SHA-256 of its content; and, the visited paths being distinct, every other order of
  arrival gives the same listing.
\<close>

theorem NewFileListing_sorted_without_root:
  assumes perm: "\<And>rs. mset (deliver rs) = mset rs"
      and ok: "NewFileListing digest root t deliver = Inr out"
  shows "\<exists>visits. walk root t = Inr visits
           \<and> mset (map Inr out)
               = mset (map (unit_of_work digest) (filter (\<lambda>v. visit_path v \<noteq> root) visits))
           \<and> (\<forall>e \<in> set out. Path e \<noteq> root)
           \<and> sorted (map Path out)
           \<and> (\<forall>e \<in> set out. \<exists>v \<in> set visits.
                 Path e = visit_path v
                 \<and> (case visit_node v of
                       ListedDir \<Rightarrow> listing_SHA256 e = []
                     | ListedFile f \<Rightarrow> \<exists>b. f = Content b \<and> listing_SHA256 e = digest b))
           \<and> (distinct (map visit_path visits)
                \<longrightarrow> (\<forall>deliver'. (\<forall>rs. mset (deliver' rs) = mset rs)
                       \<longrightarrow> NewFileListing digest root t deliver' = Inr out))"
proof -
  from NewFileListing_Inr [OF perm ok] obtain visits es ds where
    w: "walk root t = Inr visits" and
    u: "map (unit_of_work digest) (filter (\<lambda>v. visit_path v \<noteq> root) visits) = map Inr es" and
    m: "mset ds = mset es" and
    o: "out = sort_Slice (\<lambda>a b. Path a < Path b) ds"
    by blast
  let ?vs = "filter (\<lambda>v. visit_path v \<noteq> root) visits"
  have mo: "mset out = mset es" using o m by (simp add: mset_sort_Slice)
  then have so: "set out = set es" by (rule mset_eq_setD)
  have 1: "mset (map Inr out) = mset (map (unit_of_work digest) ?vs)"
    using mo u by (metis mset_map)
  have ent: "\<exists>v \<in> set ?vs. unit_of_work digest v = Inr e" if "e \<in> set out" for e
  proof -
    from that so have "Inr e \<in> set (map Inr es)" by simp
    with u have "Inr e \<in> set (map (unit_of_work digest) ?vs)" by simp
    then show ?thesis by (auto simp: image_iff)
  qed
  have 2: "\<forall>e \<in> set out. Path e \<noteq> root"
  proof
    fix e assume "e \<in> set out"
    from ent [OF this] obtain v where "v \<in> set ?vs" "unit_of_work digest v = Inr e" by blast
    with unit_of_work_Inr [of digest v e] show "Path e \<noteq> root" by simp
  qed
  have 3: "sorted (map Path out)" unfolding o by (rule sorted_by_Path)
  have 4: "\<forall>e \<in> set out. \<exists>v \<in> set visits.
             Path e = visit_path v
             \<and> (case visit_node v of
                   ListedDir \<Rightarrow> listing_SHA256 e = []
                 | ListedFile f \<Rightarrow> \<exists>b. f = Content b \<and> listing_SHA256 e = digest b)"
  proof
    fix e assume "e \<in> set out"
    from ent [OF this] obtain v where v: "v \<in> set ?vs" "unit_of_work digest v = Inr e" by blast
    from v(1) have "v \<in> set visits" by simp
    with unit_of_work_Inr [OF v(2)]
    show "\<exists>v \<in> set visits.
             Path e = visit_path v
             \<and> (case visit_node v of
                   ListedDir \<Rightarrow> listing_SHA256 e = []
                 | ListedFile f \<Rightarrow> \<exists>b. f = Content b \<and> listing_SHA256 e = digest b)"
      by blast
  qed
  have 5: "NewFileListing digest root t deliver' = Inr out"
    if dis: "distinct (map visit_path visits)" and perm': "\<forall>rs. mset (deliver' rs) = mset rs"
    for deliver'
  proof -
    from perm' have "\<And>rs. mset (deliver' rs) = mset rs" by simp
    from NewFileListing_from_units [OF this w u] obtain ds' where
      m': "mset ds' = mset es" and
      r: "NewFileListing digest root t deliver' = Inr (sort_Slice (\<lambda>a b. Path a < Path b) ds')"
      by blast
    from dis have "distinct (map visit_path ?vs)" by (simp add: distinct_map_filter)
    with units_paths [OF u] have "distinct (map Path es)" by simp
    with m have "distinct (map Path ds)" by (metis mset_eq_imp_distinct_iff mset_map)
    moreover from m m' have "mset ds = mset ds'" by simp
    ultimately have "sort_Slice (\<lambda>a b. Path a < Path b) ds = sort_Slice (\<lambda>a b. Path a < Path b) ds'"
      by (rule sort_by_Path_unique [rotated])
    with r o show ?thesis by simp
  qed
  from w 1 2 3 4 5 show ?thesis by blast
qed

theorem NewFileListing_sorted_without_root_witness:
  "NewFileListing example_sha256_hex ''root'' example_tree rev = Inr example_listing
   \<and> NewFileListing example_sha256_hex ''root'' example_tree id = Inr example_listing
   \<and> sorted (map Path example_listing)
   \<and> list_all (\<lambda>e. Path e \<noteq> ''root'') example_listing
   \<and> map listing_SHA256 example_listing
       = [''576dd8416de5619ea001d9662291d62444d1292a38e96956bc4651c01f14bca1'', [],
          ''87e01708328c85af454981e94080726aedd64d31b4d4f87b7a0ae22db4f7c411'']"
proof -
  have perm: "\<And>rs :: (listing_error + FileEntry) list. mset (rev rs) = mset rs" by simp
  from NewFileListing_sorted_without_root [OF perm example_listing_rev]
  obtain visits where
    w: "walk ''root'' example_tree = Inr visits" and
    r: "\<forall>e \<in> set example_listing. Path e \<noteq> ''root''" and
    s: "sorted (map Path example_listing)" and
    d: "distinct (map visit_path visits)
          \<longrightarrow> (\<forall>deliver'. (\<forall>rs. mset (deliver' rs) = mset rs)
                 \<longrightarrow> NewFileListing example_sha256_hex ''root'' example_tree deliver'
                       = Inr example_listing)"
    by blast
  from w have "distinct (map visit_path visits)" by (auto simp: example_walk)
  with d have "NewFileListing example_sha256_hex ''root'' example_tree id = Inr example_listing"
    by simp
  moreover have "map listing_SHA256 example_listing
       = [''576dd8416de5619ea001d9662291d62444d1292a38e96956bc4651c01f14bca1'', [],
          ''87e01708328c85af454981e94080726aedd64d31b4d4f87b7a0ae22db4f7c411'']"
    by (simp add: example_listing_def)
  ultimately show ?thesis using example_listing_rev r s by (simp add: list_all_iff)
qed




end
